theory Spec2Isabelle
  imports Complex_Main
begin

section \<open>JavaScript numbers\<close>

text \<open>
  JavaScript numbers are IEEE 754 doubles. The values that the code computes are
  modelled by real numbers, without rounding. The two normalization loops of the frame
  loop are the exception: whether they end depends on how the sum of two doubles is
  rounded, so their additions round as the machine does. \<open>toDouble\<close> is rounding to the
  nearest double, ties to the even significand: a double has a significand of 53 bits,
  and the unit in its last place is \<open>2 ^ (e - 52)\<close> for a number in
  \<open>[2 ^ e, 2 ^ (e + 1))\<close>, with \<open>e\<close> not below -1022. Overflow to an infinity is not
  modelled (the loops only move a number towards zero), and NaN, which fails both loop
  tests and passes through unchanged, is not a value of the model.
\<close>

definition roundTiesToEven :: "real \<Rightarrow> int" where
  "roundTiesToEven q =
     (let f = \<lfloor>q\<rfloor>
      in if q - of_int f < 1 / 2 then f
         else if 1 / 2 < q - of_int f then f + 1
         else if even f then f else f + 1)"

definition ulpExponent :: "real \<Rightarrow> int" where
  "ulpExponent x = max \<lfloor>log 2 \<bar>x\<bar>\<rfloor> (- 1022) - 52"

definition toDouble :: "real \<Rightarrow> real" where
  "toDouble x =
     (if x = 0 then 0
      else of_int (roundTiesToEven (x / 2 powr of_int (ulpExponent x)))
             * 2 powr of_int (ulpExponent x))"

text \<open>The real numbers that are doubles: rounding leaves them as they are.\<close>

definition isDouble :: "real \<Rightarrow> bool" where
  "isDouble x = (toDouble x = x)"

section \<open>Longitude normalization\<close>

text \<open>
  The frame loop of \<^verbatim>\<open>src/app/page.tsx\<close> (function \<^verbatim>\<open>animate\<close>, lines 725--726)
  brings the new longitude back into range with two loops:
  \<^verbatim>\<open>
    while (newLng <= -180) newLng += 360;
    while (newLng > 180) newLng -= 360;
  \<close>
  Each loop is a recursive function that may not return: \<open>None\<close> is a loop that never
  ends, as it happens once \<^verbatim>\<open>newLng + 360 == newLng\<close>.
\<close>

partial_function (option) wrapUp :: "real \<Rightarrow> real option" where
  "wrapUp newLng =
     (if newLng \<le> - 180 then wrapUp (toDouble (newLng + 360)) else Some newLng)"

partial_function (option) wrapDown :: "real \<Rightarrow> real option" where
  "wrapDown newLng =
     (if newLng > 180 then wrapDown (toDouble (newLng - 360)) else Some newLng)"

text \<open>The two loops in the order of the source.\<close>

definition normalizeLng :: "real \<Rightarrow> real option" where
  "normalizeLng newLng = (case wrapUp newLng of None \<Rightarrow> None | Some l \<Rightarrow> wrapDown l)"

section \<open>The solar library and the sun position\<close>

text \<open>
  The npm package \<^verbatim>\<open>solar-calculator\<close> is a third-party dependency and not part of the
  repository. The three functions of it that the code calls are taken as parameters: a
  value of the record \<open>solar\<close> is the loaded module.
\<close>

record solar =
  century :: "real \<Rightarrow> real"
  equationOfTime :: "real \<Rightarrow> real"
  declination :: "real \<Rightarrow> real"

text \<open>
  \<^verbatim>\<open>new Date(dt).setUTCHours(0, 0, 0, 0)\<close>: the time value of the start of the UTC day of
  \<open>dt\<close>. ECMAScript's \<^verbatim>\<open>Date\<close> holds a time value only within 8.64e15 ms of the
  epoch; outside it the date is invalid and the call returns NaN, modelled by \<open>None\<close>.
  \<open>Day(t) = floor(t / msPerDay)\<close>, and \<open>div\<close> on \<open>int\<close> rounds down as well.
\<close>

definition utcDayStart :: "int \<Rightarrow> int option" where
  "utcDayStart dt =
     (if \<bar>dt\<bar> \<le> 8640000000000000 then Some (dt div 86400000 * 86400000) else None)"

text \<open>
  \<^verbatim>\<open>sunPosAt\<close> of \<^verbatim>\<open>src/unnamed/part_000\<close> (lines 136--141), where the module is always
  loaded. The longitude is \<open>None\<close> where JavaScript computes NaN.
\<close>

definition sunPosAtLoaded :: "solar \<Rightarrow> int \<Rightarrow> real option \<times> real" where
  "sunPosAtLoaded sc dt =
     (let day = utcDayStart dt;
          t = century sc (of_int dt);
          longitude = map_option (\<lambda>d. of_int (d - dt) / 86400000 * 360 - 180) day
      in (map_option (\<lambda>l. l - equationOfTime sc t / 4) longitude, declination sc t))"

text \<open>
  \<^verbatim>\<open>sunPosAt\<close> of \<^verbatim>\<open>src/app/page.tsx\<close> (lines 137--144): the same computation behind a
  guard on the module being loaded.
\<close>

definition sunPosAt :: "solar option \<Rightarrow> int \<Rightarrow> real option \<times> real" where
  "sunPosAt solarCalc dt =
     (case solarCalc of
        None \<Rightarrow> (Some 0, 0)
      | Some sc \<Rightarrow> sunPosAtLoaded sc dt)"

text \<open>\<^verbatim>\<open>getSunDeclination\<close> of \<^verbatim>\<open>src/app/page.tsx\<close> (lines 595--599).\<close>

definition getSunDeclination :: "solar option \<Rightarrow> int \<Rightarrow> real" where
  "getSunDeclination solarCalc dt =
     (case solarCalc of
        None \<Rightarrow> 0
      | Some sc \<Rightarrow> declination sc (century sc (of_int dt)))"

section \<open>The globe, the camera and the engine state\<close>

type_synonym vec3 = "real \<times> real \<times> real"

text \<open>
  The argument and result of the toolkit's \<^verbatim>\<open>pointOfView\<close>: the view state.
\<close>

record pov =
  lat :: real
  lng :: real
  altitude :: real

text \<open>
  The camera of the rendering toolkit, as far as the code writes it: its up-vector. The
  position and the rotation of the camera are the toolkit's own state; the calls that
  change them (\<^verbatim>\<open>lookAt\<close>, the \<^verbatim>\<open>pointOfView\<close> setter) are recorded as effects below.
\<close>

record camera =
  up :: vec3

text \<open>
  The \<^verbatim>\<open>Globe\<close> instance held in the variable \<^verbatim>\<open>world\<close>: \<^verbatim>\<open>world.camera()\<close> and the
  getter \<^verbatim>\<open>world.pointOfView()\<close> read these fields; the setter
  \<^verbatim>\<open>world.pointOfView(p, 0)\<close>, with a transition of 0 ms, stores \<open>p\<close> at once.
\<close>

record globe =
  camera :: camera
  pointOfView :: pov

text \<open>The calls a frame tick makes into the toolkit and the browser, in order.\<close>

datatype effect =
    CameraUpSet vec3
  | PointOfViewSet pov int
  | CameraLookAt vec3
  | SunPositionSet "real option" real
  | RequestAnimationFrame

text \<open>
  The variables of the effect closure of \<^verbatim>\<open>Home\<close> and the refs it uses. \<open>timers\<close> and
  \<open>nextTimerId\<close> are the browser's table of pending timeouts (handle and due time) and
  its next free handle; a handle is a positive number, so a stored handle is truthy.
  \<open>hung\<close> says that the single thread is inside a loop that never ends: the callback
  that entered it does not return, and no other callback runs again.
\<close>

record engine =
  isMounted :: bool
  world :: "globe option"
  solarCalc :: "solar option"
  solarRef :: "solar option"
  lastFrameTimeRef :: int
  isUserInteracting :: bool
  interactionTimeoutRef :: "nat option"
  timers :: "(nat \<times> int) list"
  nextTimerId :: nat
  hung :: bool

text \<open>
  Modelled from the spec: \<^verbatim>\<open>MathUtils.degToRad\<close> of the rendering toolkit, which is not
  under \<^verbatim>\<open>src/\<close>, converts degrees to radians.
\<close>

definition degToRad :: "real \<Rightarrow> real" where
  "degToRad degrees = degrees * (pi / 180)"

definition degreesPerMillisecond :: real where
  "degreesPerMillisecond = 360 / (24 * 60 * 60 * 1000)"

section \<open>The frame loop\<close>

text \<open>
  \<^verbatim>\<open>animate\<close> of \<^verbatim>\<open>src/app/page.tsx\<close> (lines 696--738). \<open>currentTime\<close> is what
  \<^verbatim>\<open>Date.now()\<close> returns in this tick. The result is the state after the tick and the
  calls the tick made. When the normalization of the new longitude never ends, the tick
  does not return: the result is then the state and the calls made when the loop was
  entered, with \<open>hung\<close> set.
\<close>

definition animate :: "int \<Rightarrow> engine \<Rightarrow> engine \<times> effect list" where
  "animate currentTime s =
     (if \<not> isMounted s then (s, [])
      else
        let deltaTime = currentTime - lastFrameTimeRef s;
            s1 = s\<lparr>lastFrameTimeRef := currentTime\<rparr>
        in case world s1 of
             None \<Rightarrow> (s1, [RequestAnimationFrame])
           | Some w \<Rightarrow>
              (case solarRef s1 of
                 None \<Rightarrow> (s1, [RequestAnimationFrame])
               | Some _ \<Rightarrow>
                  let actualDeclination = getSunDeclination (solarCalc s1) currentTime;
                      currentTiltRad = degToRad actualDeclination;
                      upVector = (sin (- currentTiltRad), cos (- currentTiltRad), 0);
                      w1 = w\<lparr>camera := (camera w)\<lparr>up := upVector\<rparr>\<rparr>
                  in if \<not> isUserInteracting s1 \<and> deltaTime > 0 then
                       let rotationIncrementDegrees = degreesPerMillisecond * of_int deltaTime;
                           currentPov = pointOfView w1
                       in case normalizeLng (lng currentPov - rotationIncrementDegrees) of
                            None \<Rightarrow> (s1\<lparr>world := Some w1, hung := True\<rparr>, [CameraUpSet upVector])
                          | Some newLng \<Rightarrow>
                             let p = \<lparr>lat = lat currentPov, lng = newLng,
                                      altitude = altitude currentPov\<rparr>
                             in (s1\<lparr>world := Some (w1\<lparr>pointOfView := p\<rparr>)\<rparr>,
                                 [CameraUpSet upVector, PointOfViewSet p 0,
                                  CameraLookAt (0, 0, 0), RequestAnimationFrame])
                     else (s1\<lparr>world := Some w1\<rparr>,
                           [CameraUpSet upVector,
                            CameraLookAt (0, 0, 0), RequestAnimationFrame])))"


section \<open>The interaction gate\<close>

text \<open>\<^verbatim>\<open>clearTimeout\<close>: a handle that is not pending is ignored.\<close>

definition clearTimeout :: "nat \<Rightarrow> (nat \<times> int) list \<Rightarrow> (nat \<times> int) list" where
  "clearTimeout h ts = filter (\<lambda>(i, due). i \<noteq> h) ts"

text \<open>\<^verbatim>\<open>handleInteractionStart\<close> of \<^verbatim>\<open>src/app/page.tsx\<close> (lines 521--526).\<close>

definition handleInteractionStart :: "engine \<Rightarrow> engine" where
  "handleInteractionStart s =
     (let s1 = s\<lparr>isUserInteracting := True\<rparr>
      in case interactionTimeoutRef s1 of
           None \<Rightarrow> s1
         | Some h \<Rightarrow> s1\<lparr>timers := clearTimeout h (timers s1)\<rparr>)"

text \<open>
  \<^verbatim>\<open>handleInteractionEnd\<close> (lines 528--536), called at time \<open>now\<close>: \<^verbatim>\<open>setTimeout\<close> with
  a delay of 2000 ms enters a timer due at \<open>now + 2000\<close> and returns its handle.
\<close>

definition handleInteractionEnd :: "int \<Rightarrow> engine \<Rightarrow> engine" where
  "handleInteractionEnd now s =
     (let s1 = (case interactionTimeoutRef s of
                  None \<Rightarrow> s
                | Some h \<Rightarrow> s\<lparr>timers := clearTimeout h (timers s)\<rparr>);
          h' = nextTimerId s1
      in s1\<lparr>timers := timers s1 @ [(h', now + 2000)],
            nextTimerId := Suc h',
            interactionTimeoutRef := Some h'\<rparr>)"

text \<open>The callback of that timer (lines 532--535), run at time \<open>now\<close>.\<close>

definition releaseInteraction :: "int \<Rightarrow> engine \<Rightarrow> engine" where
  "releaseInteraction now s = s\<lparr>isUserInteracting := False, lastFrameTimeRef := now\<rparr>"

text \<open>
  The browser's clock reaches \<open>now\<close>: every pending timer that is due leaves the table
  and its callback runs. The only timers of the component are the release timers, so
  every callback is \<^const>\<open>releaseInteraction\<close>. The second component counts the callbacks
  that ran.
\<close>

definition advanceClock :: "int \<Rightarrow> engine \<Rightarrow> engine \<times> nat" where
  "advanceClock now s =
     (let due = filter (\<lambda>(h, t). t \<le> now) (timers s);
          s1 = s\<lparr>timers := filter (\<lambda>(h, t). \<not> t \<le> now) (timers s)\<rparr>
      in (fold (\<lambda>_. releaseInteraction now) due s1, length due))"

text \<open>
  Every pending timer is the one whose handle the component holds: the handlers clear
  the held timer before they lose its handle.
\<close>

definition gateInv :: "engine \<Rightarrow> bool" where
  "gateInv s = list_all (\<lambda>(h, t). interactionTimeoutRef s = Some h) (timers s)"

text \<open>The state of the component when it is first rendered at time \<open>t0\<close>.\<close>

definition initialEngine :: "int \<Rightarrow> engine" where
  "initialEngine t0 =
     \<lparr>isMounted = True, world = None, solarCalc = None, solarRef = None,
      lastFrameTimeRef = t0, isUserInteracting = False, interactionTimeoutRef = None,
      timers = [], nextTimerId = 1, hung = False\<rparr>"

text \<open>
  The callbacks run one at a time on a single thread. An event is one callback: an
  interaction start or end reported by the controls, the clock reaching a time at which
  due timers fire, or a frame tick. Once the thread hangs, no event changes the state.
\<close>

datatype event =
    InteractionStart
  | InteractionEnd int
  | ClockReaches int
  | FrameTick int

fun step :: "event \<Rightarrow> engine \<Rightarrow> engine" where
  "step InteractionStart s = (if hung s then s else handleInteractionStart s)"
| "step (InteractionEnd now) s = (if hung s then s else handleInteractionEnd now s)"
| "step (ClockReaches now) s = (if hung s then s else fst (advanceClock now s))"
| "step (FrameTick now) s = (if hung s then s else fst (animate now s))"

definition run :: "event list \<Rightarrow> engine \<Rightarrow> engine" where
  "run es s = fold step es s"

section \<open>The day/night fragment shader\<close>

type_synonym vec4 = "real \<times> real \<times> real \<times> real"

definition dot3 :: "vec3 \<Rightarrow> vec3 \<Rightarrow> real" where
  "dot3 a b = (case a of (ax, ay, az) \<Rightarrow> case b of (bx, by, bz) \<Rightarrow> ax * bx + ay * by + az * bz)"

definition normalize3 :: "vec3 \<Rightarrow> vec3" where
  "normalize3 v =
     (case v of (x, y, z) \<Rightarrow>
        let l = sqrt (x * x + y * y + z * z) in (x / l, y / l, z / l))"

text \<open>
  Modelled from the spec: the GLSL built-ins \<^verbatim>\<open>smoothstep\<close> and \<^verbatim>\<open>mix\<close>, which are not
  under \<^verbatim>\<open>src/\<close>. \<^verbatim>\<open>smoothstep\<close> is the cubic interpolation between two edges, clamped
  to 0 below the lower and to 1 above the upper edge; \<^verbatim>\<open>mix\<close> is linear interpolation.
\<close>

definition clamp :: "real \<Rightarrow> real \<Rightarrow> real \<Rightarrow> real" where
  "clamp x lo hi = min (max x lo) hi"

definition smoothstep :: "real \<Rightarrow> real \<Rightarrow> real \<Rightarrow> real" where
  "smoothstep edge0 edge1 x =
     (let t = clamp ((x - edge0) / (edge1 - edge0)) 0 1 in t * t * (3 - 2 * t))"

definition mix :: "vec4 \<Rightarrow> vec4 \<Rightarrow> real \<Rightarrow> vec4" where
  "mix x y a =
     (case x of (x1, x2, x3, x4) \<Rightarrow> case y of (y1, y2, y3, y4) \<Rightarrow>
        (x1 * (1 - a) + y1 * a, x2 * (1 - a) + y2 * a,
         x3 * (1 - a) + y3 * a, x4 * (1 - a) + y4 * a))"

text \<open>
  The fragment shader of \<^verbatim>\<open>src/app/page.tsx\<close> (lines 571--590). \<open>vNormal\<close> is the
  interpolated view-space normal; \<open>dayColor\<close> and \<open>nightColor\<close> are the two texture
  samples at the fragment.
\<close>

definition intensity :: "vec3 \<Rightarrow> real" where
  "intensity vNormal =
     (let sunDirectionViewSpace = normalize3 (1, 0, 0)
      in max 0 (dot3 vNormal sunDirectionViewSpace))"

definition fragmentShader :: "vec3 \<Rightarrow> vec4 \<Rightarrow> vec4 \<Rightarrow> vec4" where
  "fragmentShader vNormal dayColor nightColor =
     (let blendFactor = smoothstep 0 0.15 (intensity vNormal)
      in mix nightColor dayColor blendFactor)"

text \<open>
  The camera synchronizer in the words of the spec: the up-vector for a declination in
  degrees is \<open>(sin(-tiltRad), cos(-tiltRad), 0)\<close> with \<open>tiltRad = degToRad(declinationDegrees)\<close>.
\<close>

definition cameraUpFor :: "real \<Rightarrow> vec3" where
  "cameraUpFor declinationDegrees =
     (let tiltRad = degToRad declinationDegrees in (sin (- tiltRad), cos (- tiltRad), 0))"

section \<open>Concrete inputs\<close>

text \<open>
  A loaded solar module for instantiating the theorems at concrete inputs: the Julian
  century counted from J2000.0, and a sun that stays on the equator with no equation of
  time.
\<close>

definition equinoxSolar :: solar where
  "equinoxSolar =
     \<lparr>century = (\<lambda>date. (date - 946728000000) / 3155760000000),
      equationOfTime = (\<lambda>t. 0),
      declination = (\<lambda>t. 0)\<rparr>"

text \<open>
  The globe as \<^verbatim>\<open>loadGlobe\<close> leaves it (lines 669--678) under that module: the camera
  upright, the view over latitude and longitude 0.
\<close>

definition initialGlobe :: globe where
  "initialGlobe =
     \<lparr>camera = \<lparr>up = (0, 1, 0)\<rparr>,
      pointOfView = \<lparr>lat = 0, lng = 0, altitude = 5 / 2\<rparr>\<rparr>"

text \<open>The engine when \<^verbatim>\<open>loadGlobe\<close> starts the frame loop at time \<open>t0\<close> (line 695).\<close>

definition loadedEngine :: "int \<Rightarrow> engine" where
  "loadedEngine t0 =
     (initialEngine t0)\<lparr>world := Some initialGlobe, solarCalc := Some equinoxSolar,
                        solarRef := Some equinoxSolar\<rparr>"



section \<open>Rounding to a double\<close>

lemma roundTiesToEven_of_int: "roundTiesToEven (of_int z) = z"
  by (simp add: roundTiesToEven_def)

lemma two_powr_int_nonneg: "0 \<le> j \<Longrightarrow> (2::real) powr of_int j = of_int (2 ^ nat j)"
proof -
  assume "0 \<le> j"
  then have "(2::real) powr of_int j = 2 powr real (nat j)" by simp
  also have "\<dots> = 2 ^ nat j" by (simp add: powr_realpow)
  finally show ?thesis by simp
qed

lemma floor_log2_le:
  assumes "x \<noteq> 0" and "\<bar>x\<bar> < 2 powr of_int b"
  shows "\<lfloor>log 2 \<bar>x\<bar>\<rfloor> \<le> b - 1"
proof -
  have "log 2 \<bar>x\<bar> < of_int b"
    using assms by (simp add: log_less_iff)
  then have "\<lfloor>log 2 \<bar>x\<bar>\<rfloor> < b" by (simp add: floor_less_iff)
  then show ?thesis by simp
qed

text \<open>
  A number \<open>m * 2 ^ k\<close> with \<open>\<bar>m\<bar> < 2 ^ 53\<close> and \<open>k\<close> not below -1074 is a double.
\<close>

lemma isDouble_representable:
  assumes m: "\<bar>m\<bar> < 2 ^ 53" and k: "- 1074 \<le> k"
  shows "isDouble (of_int m * 2 powr of_int k)"
proof (cases "m = 0")
  case True
  then show ?thesis by (simp add: isDouble_def toDouble_def)
next
  case False
  let ?x = "of_int m * 2 powr of_int k :: real"
  have x0: "?x \<noteq> 0" using False by simp
  have "\<bar>?x\<bar> = of_int \<bar>m\<bar> * 2 powr of_int k"
    by (simp add: abs_mult)
  also have "\<dots> < 2 ^ 53 * 2 powr of_int k"
  proof -
    have "(of_int \<bar>m\<bar> :: real) < 2 ^ 53"
      using m by (metis of_int_less_numeral_power_cancel_iff)
    then show ?thesis by simp
  qed
  also have "\<dots> = 2 powr of_int (53 + k)"
    by (simp add: powr_add)
  finally have "\<bar>?x\<bar> < 2 powr of_int (53 + k)" .
  with x0 have "\<lfloor>log 2 \<bar>?x\<bar>\<rfloor> \<le> 53 + k - 1" by (rule floor_log2_le)
  with k have "ulpExponent ?x \<le> k" by (simp add: ulpExponent_def)
  define e where "e = ulpExponent ?x"
  define j where "j = k - e"
  have j: "0 \<le> j" using \<open>ulpExponent ?x \<le> k\<close> by (simp add: j_def e_def)
  have pos: "(0::real) < 2 powr of_int e" by simp
  have "(2::real) powr of_int k = 2 powr (of_int j + of_int e)"
    by (simp add: j_def)
  also have "\<dots> = 2 powr of_int j * 2 powr of_int e"
    by (rule powr_add)
  also have "2 powr of_int j = (of_int (2 ^ nat j) :: real)"
    using j by (rule two_powr_int_nonneg)
  finally have split: "(2::real) powr of_int k = of_int (2 ^ nat j) * 2 powr of_int e" .
  have xe: "?x = of_int (m * 2 ^ nat j) * 2 powr of_int e"
    unfolding split by simp
  have q: "?x / 2 powr of_int e = of_int (m * 2 ^ nat j)"
    using pos by (subst xe) simp
  have "toDouble ?x = of_int (roundTiesToEven (?x / 2 powr of_int e)) * 2 powr of_int e"
    using x0 by (simp add: toDouble_def e_def)
  also have "\<dots> = of_int (m * 2 ^ nat j) * 2 powr of_int e"
    unfolding q roundTiesToEven_of_int ..
  also have "\<dots> = ?x" by (rule xe [symmetric])
  finally show ?thesis by (simp add: isDouble_def)
qed

lemma isDouble_form:
  assumes "isDouble x"
  shows "x = of_int (roundTiesToEven (x / 2 powr of_int (ulpExponent x))) * 2 powr of_int (ulpExponent x)"
  using assms by (cases "x = 0") (simp_all add: isDouble_def toDouble_def roundTiesToEven_def)

lemma ulpExponent_mid:
  assumes lo: "128 \<le> \<bar>x\<bar>" and hi: "\<bar>x\<bar> < 2 ^ 56"
  shows "- 45 \<le> ulpExponent x" and "ulpExponent x \<le> 3"
    and "\<bar>x\<bar> < 2 ^ 53 * 2 powr of_int (ulpExponent x)"
proof -
  have x0: "x \<noteq> 0" using lo by auto
  have "(2::real) powr 7 \<le> \<bar>x\<bar>" using lo by simp
  then have "7 \<le> log 2 \<bar>x\<bar>" using x0 by (simp add: le_log_iff)
  then have n7: "7 \<le> \<lfloor>log 2 \<bar>x\<bar>\<rfloor>" by (simp add: le_floor_iff)
  have "\<bar>x\<bar> < 2 powr of_int 56" using hi by simp
  with x0 have n55: "\<lfloor>log 2 \<bar>x\<bar>\<rfloor> \<le> 56 - 1" by (rule floor_log2_le)
  from n7 have e: "ulpExponent x = \<lfloor>log 2 \<bar>x\<bar>\<rfloor> - 52"
    by (simp add: ulpExponent_def)
  from n7 e show "- 45 \<le> ulpExponent x" by simp
  from n55 e show "ulpExponent x \<le> 3" by simp
  have "\<bar>x\<bar> < 2 powr (of_int \<lfloor>log 2 \<bar>x\<bar>\<rfloor> + 1)"
    using x0 floor_log_eq_powr_iff [of "\<bar>x\<bar>" 2 "\<lfloor>log 2 \<bar>x\<bar>\<rfloor>"] by simp
  also have "of_int \<lfloor>log 2 \<bar>x\<bar>\<rfloor> + 1 = 53 + real_of_int (ulpExponent x)"
    using e by simp
  also have "2 powr (53 + real_of_int (ulpExponent x)) = 2 ^ 53 * 2 powr of_int (ulpExponent x)"
    by (simp add: powr_add)
  finally show "\<bar>x\<bar> < 2 ^ 53 * 2 powr of_int (ulpExponent x)" .
qed

text \<open>
  Adding a multiple of 360 to a double of magnitude between 128 and \<open>2 ^ 56\<close> is exact
  when the sum is not larger in magnitude: the unit in the last place of such a double
  divides 8, and 360 is a multiple of 8.
\<close>

lemma isDouble_shift_360:
  assumes d: "isDouble x" and lo: "128 \<le> \<bar>x\<bar>" and hi: "\<bar>x\<bar> < 2 ^ 56"
    and le: "\<bar>x + 360 * of_int j\<bar> \<le> \<bar>x\<bar>"
  shows "isDouble (x + 360 * of_int j)"
proof -
  define e where "e = ulpExponent x"
  define M where "M = roundTiesToEven (x / 2 powr of_int e)"
  have x: "x = of_int M * 2 powr of_int e"
    using isDouble_form [OF d] by (simp add: M_def e_def)
  have e_lo: "- 45 \<le> e" and e_hi: "e \<le> 3"
    and bound: "\<bar>x\<bar> < 2 ^ 53 * 2 powr of_int e"
    using ulpExponent_mid [OF lo hi] by (simp_all add: e_def)
  define c where "c = 45 * 2 ^ nat (3 - e) * j"
  have "(2::real) powr of_int (3 - e) * 2 powr of_int e = 2 powr (of_int (3 - e) + of_int e)"
    by (rule powr_add [symmetric])
  also have "\<dots> = 8" by simp
  also have "(2::real) powr of_int (3 - e) = of_int (2 ^ nat (3 - e))"
    using e_hi by (intro two_powr_int_nonneg) simp
  finally have p: "of_int (2 ^ nat (3 - e)) * 2 powr of_int e = (8::real)" .
  have "of_int c * 2 powr of_int e
      = (45 * of_int j * (of_int (2 ^ nat (3 - e)) * 2 powr of_int e) :: real)"
    by (simp add: c_def)
  also have "\<dots> = 360 * of_int j" unfolding p by simp
  finally have c: "of_int c * 2 powr of_int e = (360 * of_int j :: real)" .
  have y: "x + 360 * of_int j = of_int (M + c) * 2 powr of_int e"
    using x c by (simp add: algebra_simps)
  have pos: "(0::real) < 2 powr of_int e" by simp
  have "\<bar>of_int (M + c) :: real\<bar> * 2 powr of_int e = \<bar>x + 360 * of_int j\<bar>"
    unfolding y by (simp add: abs_mult)
  also have "\<dots> < 2 ^ 53 * 2 powr of_int e"
    using le bound by simp
  finally have "\<bar>of_int (M + c) :: real\<bar> < 2 ^ 53"
    using pos by simp
  then have "\<bar>M + c\<bar> < 2 ^ 53"
    by (metis of_int_abs of_int_less_numeral_power_cancel_iff)
  moreover have "- 1074 \<le> e" using e_lo by simp
  ultimately have "isDouble (of_int (M + c) * 2 powr of_int e)"
    by (rule isDouble_representable)
  then show ?thesis by (simp only: y)
qed

section \<open>Properties of the normalization\<close>

subsection \<open>The two loops, one iteration at a time\<close>

lemma wrapUp_step: "newLng \<le> - 180 \<Longrightarrow> wrapUp newLng = wrapUp (toDouble (newLng + 360))"
  by (subst wrapUp.simps) simp

lemma wrapUp_exit: "- 180 < newLng \<Longrightarrow> wrapUp newLng = Some newLng"
  by (subst wrapUp.simps) simp

lemma wrapDown_step: "180 < newLng \<Longrightarrow> wrapDown newLng = wrapDown (toDouble (newLng - 360))"
  by (subst wrapDown.simps) simp

lemma wrapDown_exit: "newLng \<le> 180 \<Longrightarrow> wrapDown newLng = Some newLng"
  by (subst wrapDown.simps) simp

lemma normalizeLng_id: "- 180 < x \<Longrightarrow> x \<le> 180 \<Longrightarrow> normalizeLng x = Some x"
  by (simp add: normalizeLng_def wrapUp_exit wrapDown_exit)

lemma toDouble_add_360:
  assumes "isDouble x" and "x \<le> - 180" and "- (2 ^ 56) < x"
  shows "toDouble (x + 360) = x + 360"
proof -
  have "isDouble (x + 360 * of_int 1)"
    using assms by (intro isDouble_shift_360) simp_all
  then show ?thesis by (simp add: isDouble_def)
qed

lemma toDouble_sub_360:
  assumes "isDouble x" and "180 < x" and "x < 2 ^ 56"
  shows "toDouble (x - 360) = x - 360"
proof -
  have "isDouble (x + 360 * of_int (- 1))"
    using assms by (intro isDouble_shift_360) simp_all
  then show ?thesis by (simp add: isDouble_def)
qed

lemma wrapUp_exact:
  assumes "isDouble x" and "- (2 ^ 56) < x"
  shows "\<exists>k::int. 0 \<le> k \<and> wrapUp x = Some (x + 360 * of_int k) \<and> - 180 < x + 360 * of_int k \<and>
           (x \<le> - 180 \<longrightarrow> x + 360 * of_int k \<le> 180) \<and> isDouble (x + 360 * of_int k)"
  using assms
proof (induction x rule: measure_induct_rule [where f = "\<lambda>x. nat (\<lfloor>(- 180 - x) / 360\<rfloor> + 1)"])
  case (less x)
  show ?case
  proof (cases "x \<le> - 180")
    case False
    then have "wrapUp x = Some (x + 360 * of_int 0)" by (simp add: wrapUp_exit)
    with False less.prems show ?thesis
      by (intro exI [of _ 0]) simp
  next
    case True
    have exact: "toDouble (x + 360) = x + 360"
      using less.prems True by (intro toDouble_add_360)
    then have d: "isDouble (x + 360)" by (simp add: isDouble_def)
    have eq: "(- 180 - (x + 360)) / 360 = (- 180 - x) / 360 - 1"
      by (simp add: field_simps)
    have nonneg: "0 \<le> \<lfloor>(- 180 - x) / 360\<rfloor>" using True by simp
    have "\<lfloor>(- 180 - (x + 360)) / 360\<rfloor> = \<lfloor>(- 180 - x) / 360\<rfloor> - 1"
      unfolding eq by simp
    with nonneg have smaller: "nat (\<lfloor>(- 180 - (x + 360)) / 360\<rfloor> + 1) < nat (\<lfloor>(- 180 - x) / 360\<rfloor> + 1)"
      by simp
    have range: "- (2 ^ 56) < x + 360" using less.prems by simp
    from less.IH [OF smaller d range] obtain k :: int where k: "0 \<le> k"
      and w: "wrapUp (x + 360) = Some (x + 360 + 360 * of_int k)"
      and lo: "- 180 < x + 360 + 360 * of_int k"
      and up: "x + 360 \<le> - 180 \<longrightarrow> x + 360 + 360 * of_int k \<le> 180"
      and dk: "isDouble (x + 360 + 360 * of_int k)"
      by blast
    have sum: "x + 360 + 360 * of_int k = x + 360 * of_int (k + 1)"
      by (simp add: algebra_simps)
    have w': "wrapUp x = Some (x + 360 * of_int (k + 1))"
      using True w by (simp add: wrapUp_step exact sum)
    have upper: "x + 360 * of_int (k + 1) \<le> 180"
    proof (cases "x + 360 \<le> - 180")
      case True
      with up show ?thesis by (simp add: sum)
    next
      case False
      then have "wrapUp (x + 360) = Some (x + 360)" by (simp add: wrapUp_exit)
      with w have "x + 360 + 360 * of_int k = x + 360" by simp
      with \<open>x \<le> - 180\<close> show ?thesis by (simp add: sum [symmetric])
    qed
    from k w' lo dk upper show ?thesis
      by (intro exI [of _ "k + 1"]) (simp add: sum)
  qed
qed

lemma wrapDown_exact:
  assumes "isDouble x" and "- 180 < x" and "x < 2 ^ 56"
  shows "\<exists>k::int. wrapDown x = Some (x + 360 * of_int k) \<and> - 180 < x + 360 * of_int k \<and>
           x + 360 * of_int k \<le> 180"
  using assms
proof (induction x rule: measure_induct_rule [where f = "\<lambda>x. nat \<lceil>(x - 180) / 360\<rceil>"])
  case (less x)
  show ?case
  proof (cases "180 < x")
    case False
    then have "wrapDown x = Some (x + 360 * of_int 0)" by (simp add: wrapDown_exit)
    with False less.prems show ?thesis
      by (intro exI [of _ 0]) simp
  next
    case True
    have exact: "toDouble (x - 360) = x - 360"
      using less.prems True by (intro toDouble_sub_360)
    then have d: "isDouble (x - 360)" by (simp add: isDouble_def)
    have eq: "(x - 360 - 180) / 360 = (x - 180) / 360 - 1"
      by (simp add: field_simps)
    have pos: "0 < \<lceil>(x - 180) / 360\<rceil>" using True by simp
    have "\<lceil>(x - 360 - 180) / 360\<rceil> = \<lceil>(x - 180) / 360\<rceil> - 1"
      unfolding eq by simp
    with pos have smaller: "nat \<lceil>(x - 360 - 180) / 360\<rceil> < nat \<lceil>(x - 180) / 360\<rceil>"
      by simp
    have lo: "- 180 < x - 360" using True by simp
    have hi: "x - 360 < 2 ^ 56" using less.prems by simp
    from less.IH [OF smaller d lo hi] obtain k :: int
      where w: "wrapDown (x - 360) = Some (x - 360 + 360 * of_int k)"
      and rl: "- 180 < x - 360 + 360 * of_int k" and ru: "x - 360 + 360 * of_int k \<le> 180"
      by blast
    have sum: "x - 360 + 360 * of_int k = x + 360 * of_int (k - 1)"
      by (simp add: algebra_simps)
    have "wrapDown x = Some (x + 360 * of_int (k - 1))"
      using True w by (simp add: wrapDown_step exact sum)
    with rl ru show ?thesis
      by (intro exI [of _ "k - 1"]) (simp add: sum)
  qed
qed

subsection \<open>A loop that never ends\<close>

text \<open>
  The double \<open>10 ^ 19\<close> lies between \<open>2 ^ 63\<close> and \<open>2 ^ 64\<close>, where doubles are 2048 apart:
  subtracting 360 rounds back to \<open>10 ^ 19\<close>.
\<close>

lemma isDouble_1e19: "isDouble (10 ^ 19)"
proof -
  have "isDouble (of_int 19073486328125 * 2 powr of_int 19)"
    by (rule isDouble_representable) simp_all
  also have "of_int 19073486328125 * 2 powr of_int 19 = (10 ^ 19 :: real)"
    by simp
  finally show ?thesis .
qed

lemma ulpExponent_1e19: "ulpExponent 9999999999999999640 = 11"
proof -
  have "\<lfloor>log 2 \<bar>9999999999999999640 :: real\<bar>\<rfloor> = 63"
    by (subst floor_log_eq_powr_iff) simp_all
  then show ?thesis by (simp add: ulpExponent_def)
qed

lemma toDouble_1e19_absorbs: "toDouble 9999999999999999640 = 10000000000000000000"
proof -
  have q: "9999999999999999640 / 2 powr of_int 11 = (1249999999999999955 / 256 :: real)"
    by simp
  have f: "\<lfloor>1249999999999999955 / 256 :: real\<rfloor> = 4882812499999999"
    by (rule floor_unique) simp_all
  have r: "roundTiesToEven (1249999999999999955 / 256) = 4882812500000000"
    unfolding roundTiesToEven_def f by simp
  have "toDouble 9999999999999999640
      = of_int (roundTiesToEven (9999999999999999640 / 2 powr of_int 11)) * 2 powr of_int 11"
    by (simp add: toDouble_def ulpExponent_1e19)
  also have "\<dots> = of_int 4882812500000000 * 2 powr of_int 11"
    unfolding q r ..
  also have "\<dots> = 10000000000000000000" by simp
  finally show ?thesis .
qed

lemma wrapDown_diverges:
  assumes "wrapDown x = Some l"
  shows "x \<noteq> 10000000000000000000"
proof (rule wrapDown.raw_induct [where P = "\<lambda>x l. x \<noteq> 10000000000000000000"])
  fix f :: "real \<Rightarrow> real option" and newLng y :: real
  assume IH: "\<And>x y. f x = Some y \<Longrightarrow> x \<noteq> 10000000000000000000"
    and body: "(if 180 < newLng then f (toDouble (newLng - 360)) else Some newLng) = Some y"
  show "newLng \<noteq> 10000000000000000000"
  proof
    assume "newLng = 10000000000000000000"
    with body have "f 10000000000000000000 = Some y"
      by (simp add: toDouble_1e19_absorbs)
    with IH show False by blast
  qed
next
  show "wrapDown x = Some l" by fact
qed

text \<open>
  Claim C3 states that the normalization terminates for every raw longitude. At the double
  \<open>10 ^ 19\<close> the first loop is not entered and the second never ends, since
  \<^verbatim>\<open>newLng - 360 == newLng\<close> there.
\<close>

theorem normalizeLng_terminates_counterexample:
  "isDouble (10 ^ 19) \<and> wrapUp (10 ^ 19) = Some (10 ^ 19) \<and>
   toDouble (10 ^ 19 - 360) = 10 ^ 19 \<and>
   wrapDown (10 ^ 19) = None \<and> normalizeLng (10 ^ 19) = None"
proof -
  have up: "wrapUp (10 ^ 19) = Some (10 ^ 19)" by (simp add: wrapUp_exit)
  have absorbed: "toDouble (10 ^ 19 - 360) = 10 ^ 19"
    by (simp add: toDouble_1e19_absorbs)
  have down: "wrapDown (10 ^ 19) = None"
    using wrapDown_diverges [of "10 ^ 19"] by (cases "wrapDown (10 ^ 19)") auto
  from up absorbed down isDouble_1e19 show ?thesis by (simp add: normalizeLng_def)
qed

text \<open>
  Claim C3, amended. For every double of magnitude below \<open>2 ^ 56\<close> as raw longitude, the
  normalization terminates and returns a value that lies in (-180, 180] and differs from
  the input by an integer multiple of 360: on these inputs every addition and subtraction
  of 360 in the loops is exact.
\<close>

theorem normalizeLng_in_range_same_bearing:
  assumes d: "isDouble x" and m: "\<bar>x\<bar> < 2 ^ 56"
  shows "\<exists>l. normalizeLng x = Some l \<and> - 180 < l \<and> l \<le> 180 \<and>
             (\<exists>k::int. l = x + 360 * of_int k)"
proof (cases "x \<le> - 180")
  case True
  from m have "- (2 ^ 56) < x" by simp
  from wrapUp_exact [OF d this] True obtain k :: int
    where "wrapUp x = Some (x + 360 * of_int k)" and "- 180 < x + 360 * of_int k"
      and "x + 360 * of_int k \<le> 180"
    by blast
  then have "normalizeLng x = Some (x + 360 * of_int k) \<and> - 180 < x + 360 * of_int k \<and>
      x + 360 * of_int k \<le> 180"
    by (simp add: normalizeLng_def wrapDown_exit)
  then show ?thesis by blast
next
  case False
  then have up: "wrapUp x = Some x" by (simp add: wrapUp_exit)
  from m have "x < 2 ^ 56" by simp
  from wrapDown_exact [OF d _ this] False obtain k :: int
    where "wrapDown x = Some (x + 360 * of_int k)" and "- 180 < x + 360 * of_int k"
      and "x + 360 * of_int k \<le> 180"
    by auto
  with up have "normalizeLng x = Some (x + 360 * of_int k) \<and> - 180 < x + 360 * of_int k \<and>
      x + 360 * of_int k \<le> 180"
    by (simp add: normalizeLng_def)
  then show ?thesis by blast
qed

lemma isDouble_examples: "isDouble 725" "isDouble 365"
proof -
  have "isDouble (of_int 725 * 2 powr of_int 0)"
    by (rule isDouble_representable) simp_all
  then show "isDouble 725" by simp
  have "isDouble (of_int 365 * 2 powr of_int 0)"
    by (rule isDouble_representable) simp_all
  then show "isDouble 365" by simp
qed

theorem normalizeLng_in_range_same_bearing_witness:
  "isDouble 725 \<and> \<bar>725 :: real\<bar> < 2 ^ 56 \<and>
   normalizeLng 725 = Some 5 \<and> (5 :: real) = 725 + 360 * of_int (- 2)"
proof -
  have d: "isDouble 725" by (rule isDouble_examples)
  have m: "\<bar>725 :: real\<bar> < 2 ^ 56" by simp
  from normalizeLng_in_range_same_bearing [OF d m] obtain l
    where l: "normalizeLng 725 = Some l" and "- 180 < l" and "l \<le> 180"
    by blast
  have s1: "toDouble (725 - 360) = 365"
    using toDouble_sub_360 [OF d] by simp
  have s2: "toDouble (365 - 360) = 5"
    using toDouble_sub_360 [OF isDouble_examples(2)] by simp
  have "wrapDown 725 = wrapDown (toDouble (725 - 360))"
    by (rule wrapDown_step) simp
  also have "\<dots> = wrapDown 365" by (simp only: s1)
  also have "\<dots> = wrapDown (toDouble (365 - 360))"
    by (rule wrapDown_step) simp
  also have "\<dots> = wrapDown 5" by (simp only: s2)
  also have "\<dots> = Some 5"
    by (rule wrapDown_exit) simp
  finally have "normalizeLng 725 = Some 5"
    by (simp add: normalizeLng_def wrapUp_exit)
  with d m l show ?thesis by simp
qed

section \<open>The branches of the frame tick\<close>

lemma animate_unmounted: "\<not> isMounted s \<Longrightarrow> animate now s = (s, [])"
  by (simp add: animate_def)

lemma animate_not_ready:
  "isMounted s \<Longrightarrow> world s = None \<or> solarRef s = None \<Longrightarrow>
   animate now s = (s\<lparr>lastFrameTimeRef := now\<rparr>, [RequestAnimationFrame])"
  by (auto simp: animate_def Let_def split: option.splits)

lemma animate_no_rotation:
  "isMounted s \<Longrightarrow> world s = Some w \<Longrightarrow> solarRef s = Some sr \<Longrightarrow>
   isUserInteracting s \<or> now - lastFrameTimeRef s \<le> 0 \<Longrightarrow>
   animate now s =
     (s\<lparr>lastFrameTimeRef := now,
        world := Some (w\<lparr>camera :=
          (camera w)\<lparr>up := cameraUpFor (getSunDeclination (solarCalc s) now)\<rparr>\<rparr>)\<rparr>,
      [CameraUpSet (cameraUpFor (getSunDeclination (solarCalc s) now)),
       CameraLookAt (0, 0, 0), RequestAnimationFrame])"
  by (auto simp: animate_def Let_def cameraUpFor_def)

lemma animate_rotation:
  "isMounted s \<Longrightarrow> world s = Some w \<Longrightarrow> solarRef s = Some sr \<Longrightarrow>
   \<not> isUserInteracting s \<Longrightarrow> 0 < now - lastFrameTimeRef s \<Longrightarrow>
   normalizeLng (lng (pointOfView w)
     - degreesPerMillisecond * of_int (now - lastFrameTimeRef s)) = Some l \<Longrightarrow>
   animate now s =
     (let p = \<lparr>lat = lat (pointOfView w), lng = l, altitude = altitude (pointOfView w)\<rparr>;
          u = cameraUpFor (getSunDeclination (solarCalc s) now)
      in (s\<lparr>lastFrameTimeRef := now,
            world := Some (w\<lparr>camera := (camera w)\<lparr>up := u\<rparr>, pointOfView := p\<rparr>)\<rparr>,
          [CameraUpSet u, PointOfViewSet p 0, CameraLookAt (0, 0, 0), RequestAnimationFrame]))"
  by (auto simp: animate_def Let_def cameraUpFor_def)

lemma animate_hangs:
  "isMounted s \<Longrightarrow> world s = Some w \<Longrightarrow> solarRef s = Some sr \<Longrightarrow>
   \<not> isUserInteracting s \<Longrightarrow> 0 < now - lastFrameTimeRef s \<Longrightarrow>
   normalizeLng (lng (pointOfView w)
     - degreesPerMillisecond * of_int (now - lastFrameTimeRef s)) = None \<Longrightarrow>
   animate now s =
     (s\<lparr>lastFrameTimeRef := now,
        world := Some (w\<lparr>camera :=
          (camera w)\<lparr>up := cameraUpFor (getSunDeclination (solarCalc s) now)\<rparr>\<rparr>),
        hung := True\<rparr>,
      [CameraUpSet (cameraUpFor (getSunDeclination (solarCalc s) now))])"
  by (auto simp: animate_def Let_def cameraUpFor_def)

text \<open>A tick with the gate Active does not enter the normalization, so it returns.\<close>

lemma animate_active_returns:
  "isUserInteracting s \<Longrightarrow> hung (fst (animate now s)) = hung s"
  by (auto simp: animate_def Let_def split: option.splits)

text \<open>So does a tick whose new longitude is in range already.\<close>

lemma animate_in_range_returns:
  "world s = Some w \<Longrightarrow>
   - 180 < lng (pointOfView w) - degreesPerMillisecond * of_int (now - lastFrameTimeRef s) \<Longrightarrow>
   lng (pointOfView w) - degreesPerMillisecond * of_int (now - lastFrameTimeRef s) \<le> 180 \<Longrightarrow>
   hung (fst (animate now s)) = hung s"
  by (auto simp: animate_def Let_def normalizeLng_id split: option.splits)

lemma loadedEngine_fields:
  "isMounted (loadedEngine t0)" "world (loadedEngine t0) = Some initialGlobe"
  "solarRef (loadedEngine t0) = Some equinoxSolar" "solarCalc (loadedEngine t0) = Some equinoxSolar"
  "\<not> isUserInteracting (loadedEngine t0)" "lastFrameTimeRef (loadedEngine t0) = t0"
  "timers (loadedEngine t0) = []" "interactionTimeoutRef (loadedEngine t0) = None"
  "\<not> hung (loadedEngine t0)" "nextTimerId (loadedEngine t0) = 1"
  by (simp_all add: loadedEngine_def initialEngine_def)

lemma equinox_up: "cameraUpFor (getSunDeclination (Some equinoxSolar) now) = (0, 1, 0)"
  by (simp add: cameraUpFor_def getSunDeclination_def equinoxSolar_def degToRad_def)

lemma degreesPerMillisecond_value: "degreesPerMillisecond = 1 / 240000"
  by (simp add: degreesPerMillisecond_def)

text \<open>
  Claim C4. Whenever \<open>isUserInteracting\<close> is true at a frame tick, the tick makes no
  \<^verbatim>\<open>pointOfView\<close> call and leaves the view state of the globe as it was, so the rotation
  increment is never applied in a frame in which the gate is Active. This holds in every
  state, hence in every reachable one.
\<close>

theorem active_gate_no_rotation_write:
  assumes "isUserInteracting s"
  shows "(\<forall>p d. PointOfViewSet p d \<notin> set (snd (animate now s))) \<and>
         map_option pointOfView (world (fst (animate now s))) = map_option pointOfView (world s)"
proof (cases "isMounted s")
  case False
  then show ?thesis by (simp add: animate_unmounted)
next
  case True
  show ?thesis
  proof (cases "world s")
    case None
    with True show ?thesis by (simp add: animate_not_ready)
  next
    case (Some w)
    show ?thesis
    proof (cases "solarRef s")
      case None
      with True Some show ?thesis by (simp add: animate_not_ready)
    next
      case (Some sr)
      with True \<open>world s = Some w\<close> assms show ?thesis
        by (simp add: animate_no_rotation)
    qed
  qed
qed

theorem active_gate_no_rotation_write_witness:
  "isUserInteracting (handleInteractionStart (loadedEngine 0)) \<and>
   (\<forall>p d. PointOfViewSet p d
      \<notin> set (snd (animate 16 (handleInteractionStart (loadedEngine 0))))) \<and>
   map_option pointOfView (world (fst (animate 16 (handleInteractionStart (loadedEngine 0)))))
     = Some \<lparr>lat = 0, lng = 0, altitude = 5 / 2\<rparr>"
proof -
  have active: "isUserInteracting (handleInteractionStart (loadedEngine 0))"
    by (simp add: handleInteractionStart_def loadedEngine_fields)
  have before: "map_option pointOfView (world (handleInteractionStart (loadedEngine 0)))
      = Some \<lparr>lat = 0, lng = 0, altitude = 5 / 2\<rparr>"
    by (simp add: handleInteractionStart_def loadedEngine_fields initialGlobe_def)
  from active_gate_no_rotation_write [OF active, of 16] active before
  show ?thesis by simp
qed

lemma animate_idle_second:
  "animate 1000 (loadedEngine 0) =
     ((loadedEngine 0)\<lparr>lastFrameTimeRef := 1000,
        world := Some (initialGlobe\<lparr>pointOfView := \<lparr>lat = 0, lng = - (1 / 240), altitude = 5 / 2\<rparr>\<rparr>)\<rparr>,
      [CameraUpSet (0, 1, 0), PointOfViewSet \<lparr>lat = 0, lng = - (1 / 240), altitude = 5 / 2\<rparr> 0,
       CameraLookAt (0, 0, 0), RequestAnimationFrame])"
proof -
  have n: "normalizeLng (- (1 / 240)) = Some (- (1 / 240))"
    by (rule normalizeLng_id) simp_all
  have "normalizeLng (lng (pointOfView initialGlobe)
      - degreesPerMillisecond * of_int (1000 - lastFrameTimeRef (loadedEngine 0)))
      = Some (- (1 / 240))"
    using n by (simp add: loadedEngine_fields degreesPerMillisecond_value initialGlobe_def)
  then show ?thesis
    using animate_rotation [of "loadedEngine 0" initialGlobe equinoxSolar 1000 "- (1 / 240)"]
    by (simp add: loadedEngine_fields equinox_up initialGlobe_def Let_def)
qed

text \<open>
  Claim C10. A frame tick never changes the latitude or the altitude of the view, and
  every \<^verbatim>\<open>pointOfView\<close> call it makes has a transition of 0 ms and carries the latitude
  and the altitude that the globe held when the tick read them.
\<close>

theorem rotation_keeps_latitude_altitude:
  "(\<forall>w w'. world s = Some w \<and> world (fst (animate now s)) = Some w' \<longrightarrow>
      lat (pointOfView w') = lat (pointOfView w) \<and>
      altitude (pointOfView w') = altitude (pointOfView w)) \<and>
   (\<forall>p d. PointOfViewSet p d \<in> set (snd (animate now s)) \<longrightarrow>
      d = 0 \<and> (\<exists>w. world s = Some w \<and> lat p = lat (pointOfView w) \<and>
                    altitude p = altitude (pointOfView w)))"
proof (cases "isMounted s")
  case False
  then show ?thesis by (auto simp: animate_unmounted)
next
  case True
  show ?thesis
  proof (cases "world s")
    case None
    with True show ?thesis by (simp add: animate_not_ready)
  next
    case (Some w)
    show ?thesis
    proof (cases "solarRef s")
      case None
      with True Some show ?thesis by (simp add: animate_not_ready)
    next
      case sr: (Some sr)
      show ?thesis
      proof (cases "\<not> isUserInteracting s \<and> 0 < now - lastFrameTimeRef s")
        case idle: True
        show ?thesis
        proof (cases "normalizeLng (lng (pointOfView w)
                        - degreesPerMillisecond * of_int (now - lastFrameTimeRef s))")
          case None
          with \<open>isMounted s\<close> Some sr idle show ?thesis
            by (simp add: animate_hangs)
        next
          case (Some l)
          with \<open>isMounted s\<close> \<open>world s = Some w\<close> sr idle show ?thesis
            by (simp add: animate_rotation Let_def)
        qed
      next
        case False
        then have "isUserInteracting s \<or> now - lastFrameTimeRef s \<le> 0" by auto
        with \<open>isMounted s\<close> Some sr show ?thesis
          by (simp add: animate_no_rotation)
      qed
    qed
  qed
qed

theorem rotation_keeps_latitude_altitude_witness:
  "PointOfViewSet \<lparr>lat = 0, lng = - (1 / 240), altitude = 5 / 2\<rparr> 0
     \<in> set (snd (animate 1000 (loadedEngine 0))) \<and>
   world (loadedEngine 0) = Some initialGlobe \<and>
   lat (pointOfView initialGlobe) = 0 \<and> altitude (pointOfView initialGlobe) = 5 / 2 \<and>
   map_option (lat \<circ> pointOfView) (world (fst (animate 1000 (loadedEngine 0)))) = Some 0 \<and>
   map_option (altitude \<circ> pointOfView) (world (fst (animate 1000 (loadedEngine 0)))) = Some (5 / 2)"
proof -
  have eff: "PointOfViewSet \<lparr>lat = 0, lng = - (1 / 240), altitude = 5 / 2\<rparr> 0
      \<in> set (snd (animate 1000 (loadedEngine 0)))"
    by (simp add: animate_idle_second)
  have w: "world (loadedEngine 0) = Some initialGlobe"
    by (simp add: loadedEngine_fields)
  obtain w' where w': "world (fst (animate 1000 (loadedEngine 0))) = Some w'"
    by (simp add: animate_idle_second)
  from rotation_keeps_latitude_altitude [of "loadedEngine 0" 1000] w w'
  have "lat (pointOfView w') = lat (pointOfView initialGlobe) \<and>
        altitude (pointOfView w') = altitude (pointOfView initialGlobe)"
    by blast
  with eff w w' show ?thesis
    by (simp add: initialGlobe_def)
qed

section \<open>The rotation step\<close>





section \<open>The camera synchronizer\<close>





section \<open>Ticks before the engine is ready\<close>




section \<open>The interaction gate: invariant and debounce\<close>

lemma gateInv_timers_cleared:
  "gateInv s \<Longrightarrow> interactionTimeoutRef s = Some h \<Longrightarrow> clearTimeout h (timers s) = []"
  by (auto simp: gateInv_def clearTimeout_def list_all_iff filter_empty_conv)

lemma gateInv_no_handle:
  "gateInv s \<Longrightarrow> interactionTimeoutRef s = None \<Longrightarrow> timers s = []"
  by (cases "timers s") (auto simp: gateInv_def)

lemma start_timers: "gateInv s \<Longrightarrow> timers (handleInteractionStart s) = []"
  by (cases "interactionTimeoutRef s")
     (simp_all add: handleInteractionStart_def Let_def gateInv_no_handle gateInv_timers_cleared)

lemma start_fields:
  "isUserInteracting (handleInteractionStart s)"
  "interactionTimeoutRef (handleInteractionStart s) = interactionTimeoutRef s"
  "lastFrameTimeRef (handleInteractionStart s) = lastFrameTimeRef s"
  "nextTimerId (handleInteractionStart s) = nextTimerId s"
  by (simp_all add: handleInteractionStart_def Let_def split: option.splits)

lemma gateInv_start: "gateInv s \<Longrightarrow> gateInv (handleInteractionStart s)"
  using start_timers [of s] by (simp add: gateInv_def)

lemma end_timers:
  "gateInv s \<Longrightarrow> timers (handleInteractionEnd t0 s) = [(nextTimerId s, t0 + 2000)]"
  by (cases "interactionTimeoutRef s")
     (simp_all add: handleInteractionEnd_def Let_def gateInv_no_handle gateInv_timers_cleared)

lemma end_fields:
  "interactionTimeoutRef (handleInteractionEnd t0 s) = Some (nextTimerId s)"
  "isUserInteracting (handleInteractionEnd t0 s) = isUserInteracting s"
  "lastFrameTimeRef (handleInteractionEnd t0 s) = lastFrameTimeRef s"
  by (simp_all add: handleInteractionEnd_def Let_def split: option.splits)

lemma gateInv_end: "gateInv s \<Longrightarrow> gateInv (handleInteractionEnd t0 s)"
  using end_timers [of s t0] by (simp add: gateInv_def end_fields)

lemma advanceClock_none: "timers s = [] \<Longrightarrow> advanceClock t s = (s, 0)"
  by (simp add: advanceClock_def)

lemma advanceClock_early:
  "timers s = [(h, due)] \<Longrightarrow> t < due \<Longrightarrow> advanceClock t s = (s, 0)"
  by (simp add: advanceClock_def)

lemma advanceClock_due:
  "timers s = [(h, due)] \<Longrightarrow> due \<le> t \<Longrightarrow>
   advanceClock t s = (s\<lparr>timers := [], isUserInteracting := False, lastFrameTimeRef := t\<rparr>, 1)"
  by (simp add: advanceClock_def releaseInteraction_def)

lemma gateInv_advanceClock: "gateInv s \<Longrightarrow> gateInv (fst (advanceClock t s))"
proof -
  have fields: "interactionTimeoutRef (fold (\<lambda>_. releaseInteraction t) xs s') = interactionTimeoutRef s' \<and>
                timers (fold (\<lambda>_. releaseInteraction t) xs s') = timers s'" for xs :: "(nat \<times> int) list" and s'
    by (induction xs arbitrary: s') (simp_all add: releaseInteraction_def)
  assume "gateInv s"
  then show ?thesis
    by (auto simp: advanceClock_def Let_def fields gateInv_def list_all_iff)
qed

lemma gateInv_animate: "gateInv s \<Longrightarrow> gateInv (fst (animate now s))"
  by (auto simp: animate_def Let_def gateInv_def split: option.splits)

lemma gateInv_no_timers: "timers s = [] \<Longrightarrow> gateInv s"
  by (simp add: gateInv_def)

lemma gateInv_initial: "gateInv (initialEngine t0)"
  by (simp add: gateInv_no_timers initialEngine_def)

lemma gateInv_step: "gateInv s \<Longrightarrow> gateInv (step e s)"
  by (cases e) (simp_all add: gateInv_start gateInv_end gateInv_advanceClock gateInv_animate)

text \<open>
  The invariant holds in every state that a sequence of events reaches from a state with
  no pending timer, such as the initial one.
\<close>

lemma gateInv_run: "gateInv s \<Longrightarrow> gateInv (run es s)"
  unfolding run_def by (induction es arbitrary: s) (simp_all add: gateInv_step)

lemma gateInv_reachable: "gateInv (run es (initialEngine t0))"
  by (rule gateInv_run) (rule gateInv_initial)

text \<open>
  Claim C5. In a state where every pending timer is the held release timer:
  \<^verbatim>\<open>start\<close> makes the gate Active and leaves no timer pending; \<^verbatim>\<open>end\<close> at time \<open>t0\<close>
  leaves exactly one timer pending, due at \<open>t0 + 2000\<close>; after \<^verbatim>\<open>start\<close> and \<^verbatim>\<open>end\<close>, a clock
  that reaches only \<open>t1 < t0 + 2000\<close> fires nothing, and a further \<^verbatim>\<open>start\<close> leaves the
  gate Active with no timer pending, so that no later clock advance releases it; a clock
  that reaches \<open>t1 \<ge> t0 + 2000\<close> runs the release callback exactly once, after which the
  gate is Idle, the frame-time baseline is \<open>t1\<close>, and no later clock advance fires again.
\<close>

theorem interaction_gate_debounce:
  assumes inv: "gateInv s"
  shows "isUserInteracting (handleInteractionStart s) \<and> timers (handleInteractionStart s) = [] \<and>
         timers (handleInteractionEnd t0 s) = [(nextTimerId s, t0 + 2000)] \<and>
         interactionTimeoutRef (handleInteractionEnd t0 s) = Some (nextTimerId s) \<and>
         (t1 < t0 + 2000 \<longrightarrow>
            (let s1 = handleInteractionEnd t0 (handleInteractionStart s);
                 s3 = handleInteractionStart (fst (advanceClock t1 s1))
             in advanceClock t1 s1 = (s1, 0) \<and> isUserInteracting s3 \<and> timers s3 = [] \<and>
                (\<forall>t. advanceClock t s3 = (s3, 0)))) \<and>
         (t0 + 2000 \<le> t1 \<longrightarrow>
            (let s1 = handleInteractionEnd t0 (handleInteractionStart s);
                 s2 = fst (advanceClock t1 s1)
             in snd (advanceClock t1 s1) = 1 \<and> \<not> isUserInteracting s2 \<and>
                lastFrameTimeRef s2 = t1 \<and> timers s2 = [] \<and>
                (\<forall>t. advanceClock t s2 = (s2, 0))))"
proof -
  let ?s0 = "handleInteractionStart s"
  let ?s1 = "handleInteractionEnd t0 ?s0"
  have inv0: "gateInv ?s0" using inv by (rule gateInv_start)
  have t1: "timers ?s1 = [(nextTimerId ?s0, t0 + 2000)]"
    using inv0 by (rule end_timers)
  have inv1: "gateInv ?s1" using inv0 by (rule gateInv_end)
  have early: "advanceClock t1 ?s1 = (?s1, 0)" if "t1 < t0 + 2000"
    using t1 that by (rule advanceClock_early)
  have restart: "timers (handleInteractionStart ?s1) = []"
    using inv1 by (rule start_timers)
  have due: "advanceClock t1 ?s1 =
      (?s1\<lparr>timers := [], isUserInteracting := False, lastFrameTimeRef := t1\<rparr>, 1)"
    if "t0 + 2000 \<le> t1"
    using t1 that by (rule advanceClock_due)
  have a: "isUserInteracting ?s0 \<and> timers ?s0 = []"
    using inv by (simp add: start_fields start_timers)
  have b: "timers (handleInteractionEnd t0 s) = [(nextTimerId s, t0 + 2000)] \<and>
           interactionTimeoutRef (handleInteractionEnd t0 s) = Some (nextTimerId s)"
    using inv by (simp add: end_timers end_fields)
  have c: "t1 < t0 + 2000 \<longrightarrow>
            (let s1 = ?s1; s3 = handleInteractionStart (fst (advanceClock t1 s1))
             in advanceClock t1 s1 = (s1, 0) \<and> isUserInteracting s3 \<and> timers s3 = [] \<and>
                (\<forall>t. advanceClock t s3 = (s3, 0)))"
    using early restart by (simp add: Let_def start_fields advanceClock_none)
  have d: "t0 + 2000 \<le> t1 \<longrightarrow>
            (let s1 = ?s1; s2 = fst (advanceClock t1 s1)
             in snd (advanceClock t1 s1) = 1 \<and> \<not> isUserInteracting s2 \<and>
                lastFrameTimeRef s2 = t1 \<and> timers s2 = [] \<and>
                (\<forall>t. advanceClock t s2 = (s2, 0)))"
    using due by (simp add: Let_def advanceClock_none)
  from a b c d show ?thesis by blast
qed

theorem interaction_gate_debounce_witness:
  "gateInv (initialEngine 0) \<and> (1999::int) < 0 + 2000 \<and> (0::int) + 2000 \<le> 2001 \<and>
   isUserInteracting
     (handleInteractionStart (fst (advanceClock 1999
        (handleInteractionEnd 0 (handleInteractionStart (initialEngine 0)))))) \<and>
   snd (advanceClock 2001 (handleInteractionEnd 0 (handleInteractionStart (initialEngine 0)))) = 1 \<and>
   \<not> isUserInteracting
     (fst (advanceClock 2001 (handleInteractionEnd 0 (handleInteractionStart (initialEngine 0))))) \<and>
   lastFrameTimeRef
     (fst (advanceClock 2001 (handleInteractionEnd 0 (handleInteractionStart (initialEngine 0)))))
     = 2001"
proof -
  have inv: "gateInv (initialEngine 0)" by (rule gateInv_initial)
  have before: "(1999::int) < 0 + 2000" and after: "(0::int) + 2000 \<le> 2001"
    by simp_all
  from interaction_gate_debounce [OF inv, of 0 1999, unfolded Let_def] before
  have early: "isUserInteracting
     (handleInteractionStart (fst (advanceClock 1999
        (handleInteractionEnd 0 (handleInteractionStart (initialEngine 0))))))"
    by blast
  from interaction_gate_debounce [OF inv, of 0 2001, unfolded Let_def] after
  have late: "snd (advanceClock 2001 (handleInteractionEnd 0 (handleInteractionStart (initialEngine 0)))) = 1 \<and>
   \<not> isUserInteracting
     (fst (advanceClock 2001 (handleInteractionEnd 0 (handleInteractionStart (initialEngine 0))))) \<and>
   lastFrameTimeRef
     (fst (advanceClock 2001 (handleInteractionEnd 0 (handleInteractionStart (initialEngine 0)))))
     = 2001"
    by blast
  from inv before after early late show ?thesis by blast
qed

section \<open>The shading boundary\<close>

lemma smoothstep_lower: "smoothstep 0 0.15 0 = 0"
  by (simp add: smoothstep_def clamp_def)

lemma smoothstep_upper: "0.15 \<le> x \<Longrightarrow> smoothstep 0 0.15 x = 1"
proof -
  assume "0.15 \<le> x"
  then have "1 \<le> x / 0.15" by (simp add: field_simps)
  then have "clamp ((x - 0) / (0.15 - 0)) 0 1 = 1"
    by (simp add: clamp_def)
  then show ?thesis by (simp add: smoothstep_def)
qed

lemma mix_zero: "mix x y 0 = x"
  by (cases x, cases y) (simp add: mix_def)

lemma mix_one: "mix x y 1 = y"
  by (cases x, cases y) (simp add: mix_def)

text \<open>
  Claim C7. With the edges 0 and 0.15, a fragment whose intensity is at the lower edge
  gets the night sample, and a fragment whose intensity is at or above the upper edge gets
  the day sample.
\<close>

theorem shading_boundary:
  "(intensity vNormal = 0 \<longrightarrow> fragmentShader vNormal dayColor nightColor = nightColor) \<and>
   (0.15 \<le> intensity vNormal \<longrightarrow> fragmentShader vNormal dayColor nightColor = dayColor)"
proof (intro conjI impI)
  assume "intensity vNormal = 0"
  then show "fragmentShader vNormal dayColor nightColor = nightColor"
    unfolding fragmentShader_def Let_def by (simp only: smoothstep_lower mix_zero)
next
  assume "0.15 \<le> intensity vNormal"
  then have "smoothstep 0 0.15 (intensity vNormal) = 1"
    by (rule smoothstep_upper)
  then show "fragmentShader vNormal dayColor nightColor = dayColor"
    unfolding fragmentShader_def Let_def by (simp only: mix_one)
qed

lemma intensity_examples: "intensity (0, 1, 0) = 0" "intensity (1, 0, 0) = 1"
  by (simp_all add: intensity_def normalize3_def dot3_def)

theorem shading_boundary_witness:
  "intensity (0, 1, 0) = 0 \<and> fragmentShader (0, 1, 0) (1, 1, 1, 1) (0, 0, 0, 1) = (0, 0, 0, 1) \<and>
   0.15 \<le> intensity (1, 0, 0) \<and> fragmentShader (1, 0, 0) (1, 1, 1, 1) (0, 0, 0, 1) = (1, 1, 1, 1)"
proof -
  have lo: "intensity (0, 1, 0) = 0" and hi: "0.15 \<le> intensity (1, 0, 0)"
    by (simp_all add: intensity_examples)
  from shading_boundary [of "(0, 1, 0)" "(1, 1, 1, 1)" "(0, 0, 0, 1)"] lo
  have night: "fragmentShader (0, 1, 0) (1, 1, 1, 1) (0, 0, 0, 1) = (0, 0, 0, 1)"
    by blast
  from shading_boundary [of "(1, 0, 0)" "(1, 1, 1, 1)" "(0, 0, 0, 1)"] hi
  have day: "fragmentShader (1, 0, 0) (1, 1, 1, 1) (0, 0, 0, 1) = (1, 1, 1, 1)"
    by blast
  from lo hi night day show ?thesis by blast
qed

section \<open>The longitude of the sun\<close>

lemma utcDayStart_in_range:
  "\<bar>dt\<bar> \<le> 8640000000000000 \<Longrightarrow> utcDayStart dt = Some (dt - dt mod 86400000)"
proof -
  have "dt div 86400000 * 86400000 = dt - dt mod 86400000"
    by (simp add: minus_mod_eq_div_mult)
  then show "\<bar>dt\<bar> \<le> 8640000000000000 \<Longrightarrow> utcDayStart dt = Some (dt - dt mod 86400000)"
    by (simp add: utcDayStart_def)
qed

lemma sunPosAtLoaded_longitude:
  assumes "\<bar>dt\<bar> \<le> 8640000000000000"
  shows "fst (sunPosAtLoaded sc dt) =
           Some (- (of_int (dt mod 86400000) / 86400000 * 360) - 180
                 - equationOfTime sc (century sc (of_int dt)) / 4)"
  using assms by (simp add: sunPosAtLoaded_def Let_def utcDayStart_in_range)

lemma day_fraction_bounds:
  "- 540 < - (of_int (dt mod 86400000) / 86400000 * 360) - (180::real) \<and>
   - (of_int (dt mod 86400000) / 86400000 * 360) - (180::real) \<le> - 180"
proof -
  have "0 \<le> dt mod 86400000" and "dt mod 86400000 < 86400000"
    by simp_all
  then have "0 \<le> (of_int (dt mod 86400000) :: real)"
    and "(of_int (dt mod 86400000) :: real) < 86400000"
    by (simp_all only: of_int_0_le_iff of_int_less_numeral_iff)
  then show ?thesis by (simp add: field_simps)
qed

text \<open>
  Claim C2 places the longitude returned by \<^verbatim>\<open>sunPosAt\<close> in (-180, 180]. At noon UTC of
  1 January 1970 the code returns \<open>-360 - e / 4\<close>, \<open>e\<close> being the equation of time at that
  instant: -360 when it is 0, and, whatever solar module is loaded, a longitude below -180
  as long as its equation of time there is less than 720 minutes in size.
\<close>

theorem sunPosAt_longitude_counterexample:
  "fst (sunPosAt (Some equinoxSolar) 43200000) = Some (- 360) \<and>
   \<not> (\<exists>sc l. \<bar>equationOfTime sc (century sc 43200000)\<bar> < 720 \<and>
               fst (sunPosAt (Some sc) 43200000) = Some l \<and> - 180 < l \<and> l \<le> 180)"
proof
  show "fst (sunPosAt (Some equinoxSolar) 43200000) = Some (- 360)"
    by (simp add: sunPosAt_def sunPosAtLoaded_def Let_def utcDayStart_def equinoxSolar_def)
next
  show "\<not> (\<exists>sc l. \<bar>equationOfTime sc (century sc 43200000)\<bar> < 720 \<and>
               fst (sunPosAt (Some sc) 43200000) = Some l \<and> - 180 < l \<and> l \<le> 180)"
  proof
    assume "\<exists>sc l. \<bar>equationOfTime sc (century sc 43200000)\<bar> < 720 \<and>
               fst (sunPosAt (Some sc) 43200000) = Some l \<and> - 180 < l \<and> l \<le> 180"
    then obtain sc l where e: "\<bar>equationOfTime sc (century sc 43200000)\<bar> < 720"
      and l: "fst (sunPosAt (Some sc) 43200000) = Some l" and lo: "- 180 < l"
      by blast
    have "fst (sunPosAt (Some sc) 43200000)
        = Some (- 360 - equationOfTime sc (century sc 43200000) / 4)"
      by (simp add: sunPosAt_def sunPosAtLoaded_def Let_def utcDayStart_def)
    with l have "l = - 360 - equationOfTime sc (century sc 43200000) / 4"
      by simp
    with e lo show False by (simp add: abs_less_iff)
  qed
qed

text \<open>
  Claim C2, amended. For every instant within the range of \<^verbatim>\<open>Date\<close>, the longitude
  returned by \<^verbatim>\<open>sunPosAt\<close> with the solar module loaded is \<open>L - e / 4\<close>, where
  \<open>L = -360 * m / 86400000 - 180\<close> for the \<open>m\<close> milliseconds elapsed since the start of the
  UTC day, so that \<open>L\<close> lies in (-540, -180], and \<open>e\<close> is the module's equation of time at
  the instant; the value is not normalized. Without the module, \<^verbatim>\<open>sunPosAt\<close> of
  \<^verbatim>\<open>page.tsx\<close> returns longitude 0.
\<close>

theorem sunPosAt_longitude_unnormalized:
  assumes "\<bar>dt\<bar> \<le> 8640000000000000"
  shows "fst (sunPosAt None dt) = Some 0 \<and>
         (\<exists>l. fst (sunPosAt (Some sc) dt) = Some l \<and> fst (sunPosAtLoaded sc dt) = Some l \<and>
              l = - (of_int (dt mod 86400000) / 86400000 * 360) - 180
                  - equationOfTime sc (century sc (of_int dt)) / 4 \<and>
              - 540 < l + equationOfTime sc (century sc (of_int dt)) / 4 \<and>
              l + equationOfTime sc (century sc (of_int dt)) / 4 \<le> - 180)"
  using assms day_fraction_bounds [of dt]
  by (simp add: sunPosAt_def sunPosAtLoaded_longitude)

theorem sunPosAt_longitude_unnormalized_witness:
  "\<bar>21600000::int\<bar> \<le> 8640000000000000 \<and>
   fst (sunPosAt (Some equinoxSolar) 21600000) = Some (- 270)"
proof -
  have r: "\<bar>21600000::int\<bar> \<le> 8640000000000000" by simp
  from sunPosAt_longitude_unnormalized [OF r, of equinoxSolar] r show ?thesis
    by (simp add: equinoxSolar_def)
qed

end
